theory Spec2Isabelle
  imports Complex_Main "HOL-Library.Sublist"
begin

section \<open>Numbers\<close>

text \<open>
  The scripts compute with Python numbers: \<open>step\<close> is an \<open>int\<close>, positions, delays, losses
  and qualities are floats obtained from small integers by \<open>+\<close>, \<open>-\<close>, \<open>*\<close>, \<open>/\<close>, \<open>min\<close>,
  \<open>max\<close> and \<open>abs\<close>. The model computes the same expressions over the reals, i.e. it
  gives the exact value of every expression; rounding of binary floating point is not
  modelled.
\<close>

section \<open>Linear interpolation model (q6, q7, q8)\<close>

text \<open>
  One link's parameters: the \<open>rate\<close>, \<open>delay\<close> and \<open>loss\<close> arguments of the
  \<open>tc qdisc change ... netem\<close> command issued for that link. The delay is formatted into
  a string \<open>f"{...}ms"\<close> by the source; the model keeps the number.
\<close>

record link_params =
  bw :: real
  delay :: real
  loss :: real

text \<open>q6, \<open>adjust_link_quality\<close>: \<open>ap1_new_bw\<close>, \<open>ap1_new_delay\<close>, \<open>ap1_new_loss\<close>.\<close>

definition q6_ap1_new :: "real \<Rightarrow> link_params" where
  "q6_ap1_new position =
     \<lparr>bw = max 1 (20 - position * 19),
      delay = 1 + position * 19,
      loss = min 99 (position * 50)\<rparr>"

text \<open>q6, \<open>adjust_link_quality\<close>: \<open>ap2_new_bw\<close>, \<open>ap2_new_delay\<close>, \<open>ap2_new_loss\<close>.\<close>

definition q6_ap2_new :: "real \<Rightarrow> link_params" where
  "q6_ap2_new position =
     \<lparr>bw = max 1 (1 + position * 19),
      delay = 20 - position * 19,
      loss = min 99 (50 - position * 50)\<rparr>"

text \<open>q7 and q8, \<open>simulate_mobility\<close>: \<open>ap1_bw\<close>, \<open>ap1_delay\<close>, \<open>ap1_loss\<close>.\<close>

definition q7_ap1 :: "real \<Rightarrow> link_params" where
  "q7_ap1 position =
     \<lparr>bw = max 1 (20 - position * 19),
      delay = 2 + position * 18,
      loss = min 80 (position * 50)\<rparr>"

text \<open>q7 and q8, \<open>simulate_mobility\<close>: \<open>ap2_bw\<close>, \<open>ap2_delay\<close>, \<open>ap2_loss\<close>.\<close>

definition q7_ap2 :: "real \<Rightarrow> link_params" where
  "q7_ap2 position =
     \<lparr>bw = max 1 (1 + position * 19),
      delay = 20 - position * 18,
      loss = min 80 (50 - position * 50)\<rparr>"

text \<open>The clamp of the specification, \<open>clamp(p, 0, 1) = min(1, max(0, p))\<close>.\<close>

definition clamp01 :: "real \<Rightarrow> real" where
  "clamp01 p = min 1 (max 0 p)"

text \<open>The position of a step, \<open>position = step / step_count\<close> (Python true division).\<close>

definition position_of :: "nat \<Rightarrow> nat \<Rightarrow> real" where
  "position_of step step_count = real step / real step_count"


subsection \<open>The step loop of q6\<close>

text \<open>
  \<open>adjust_link_quality\<close> (q6) keeps the connected access point in the local variable
  \<open>current_link\<close> and writes two kinds of lines to its output file: a handover line
  \<open>"{step} | {position:.2f} | Handover to APn | - | -"\<close> and, at every step, a ping line
  \<open>"{step} | {position:.2f} | {connected_ap} | {rtt} | {loss}"\<close>. The round-trip time and
  the loss of the ping line are read from the output of an external \<open>ping\<close>; the model
  keeps the step, the position and the access point of each line, and leaves out the
  three header lines written before the loop. \<open>q6_netem\<close> holds, for every step, the
  parameters of the two \<open>tc qdisc change\<close> commands of that step (link to AP1, link to
  AP2).
\<close>

datatype q6_line =
  Handover_to nat real nat
| Ping_result nat real nat

record q6_state =
  current_link :: nat
  out_file :: "q6_line list"
  q6_netem :: "(link_params \<times> link_params) list"

datatype py_error = ZeroDivisionError

definition should_use_ap2 :: "real \<Rightarrow> bool" where
  "should_use_ap2 position =
     (bw (q6_ap2_new position) > bw (q6_ap1_new position)
      \<and> loss (q6_ap2_new position) < loss (q6_ap1_new position))"

definition q6_step :: "nat \<Rightarrow> q6_state \<Rightarrow> nat \<Rightarrow> q6_state" where
  "q6_step step_count st step =
     (let position = position_of step step_count;
          st0 = st\<lparr>q6_netem := q6_netem st @ [(q6_ap1_new position, q6_ap2_new position)]\<rparr>;
          st1 = (if should_use_ap2 position \<and> current_link st0 = 1 then
                   st0\<lparr>current_link := 2,
                       out_file := out_file st0 @ [Handover_to step position 2]\<rparr>
                 else if \<not> should_use_ap2 position \<and> current_link st0 = 2 then
                   st0\<lparr>current_link := 1,
                       out_file := out_file st0 @ [Handover_to step position 1]\<rparr>
                 else st0);
          connected_ap = (if current_link st1 = 1 then 1 else 2)
      in st1\<lparr>out_file := out_file st1 @ [Ping_result step position connected_ap]\<rparr>)"

definition q6_init :: q6_state where
  "q6_init = \<lparr>current_link = 1, out_file = [], q6_netem = []\<rparr>"

text \<open>
  \<open>for step in range(step_count + 1)\<close>. With \<open>step_count = 0\<close> the division
  \<open>step / step_count\<close> of the first iteration raises.
\<close>

definition adjust_link_quality :: "nat \<Rightarrow> py_error + q6_state" where
  "adjust_link_quality step_count =
     (if step_count = 0 then Inl ZeroDivisionError
      else Inr (foldl (q6_step step_count) q6_init [0..<step_count + 1]))"

fun is_handover :: "q6_line \<Rightarrow> bool" where
  "is_handover (Handover_to _ _ _) = True"
| "is_handover (Ping_result _ _ _) = False"

definition q6_handovers :: "py_error + q6_state \<Rightarrow> q6_line list" where
  "q6_handovers r = (case r of Inl _ \<Rightarrow> [] | Inr st \<Rightarrow> filter is_handover (out_file st))"


subsection \<open>The step loop of q7 and q8\<close>

text \<open>
  \<open>simulate_mobility\<close> (q7, q8) keeps no variable for the connected access point: it asks
  the station's routing table (\<open>ip route show default\<close>) and changes it with
  \<open>ip route del default\<close> and \<open>ip route add default via ...\<close>. The model keeps the
  gateway address of the default route, if there is one. For a default route
  \<open>ip route show default\<close> prints a line \<open>default via <gateway> dev <interface>\<close>, and
  nothing when there is none; the model prints the line up to the gateway.

  The addresses \<open>ap1.IP()\<close> and \<open>ap2.IP()\<close> are those that the network library reports
  for the two switches. The scripts create the switches without an address (the
  addresses 10.0.0.101 and 10.0.0.102 are set by a shell \<open>ifconfig\<close> only), so the two
  addresses are parameters here and nothing makes them differ. The test of the loop,
  \<open>ap1.IP() in sta1.cmd('ip route show default')\<close>, is containment of text: the address
  of AP1 occurs somewhere in the printed line.
\<close>

datatype ap = AP1 | AP2

definition ip_route_show_default :: "string option \<Rightarrow> string" where
  "ip_route_show_default table =
     (case table of None \<Rightarrow> [] | Some gw \<Rightarrow> ''default via '' @ gw)"

text \<open>\<open>ip route add default via gw\<close>: refused when a default route exists.\<close>

definition ip_route_add_default :: "string option \<Rightarrow> string \<Rightarrow> string option" where
  "ip_route_add_default table gw = (case table of None \<Rightarrow> Some gw | Some g \<Rightarrow> Some g)"

definition ip_route_del_default :: "string option \<Rightarrow> string option" where
  "ip_route_del_default table = None"

text \<open>
  A line \<open>"{elapsed:.1f} | {position:.2f} | Handover from AP1 to AP2"\<close> of
  \<open>handover_events.txt\<close>: the position and the two access points the text names (the
  elapsed wall-clock time is not modelled). With a monitor (q8 only),
  \<open>monitor.record_event(position, "Handover from AP1 to AP2")\<close> records the same.
  \<open>q7_netem\<close> holds, for every step, the parameters of the two \<open>tc qdisc change\<close> commands
  of that step.
\<close>

record q7_state =
  default_route :: "string option"
  q7_netem :: "(link_params \<times> link_params) list"
  handover_events :: "(real \<times> ap \<times> ap) list"
  monitor_events :: "(real \<times> ap \<times> ap) list"
  mobility_error :: bool

text \<open>
  \<open>position > 0.5 and sta1.cmd('ip route show default') and
  ap1.IP() in sta1.cmd('ip route show default')\<close>.
\<close>

definition q7_handover_needed :: "real \<Rightarrow> string \<Rightarrow> string option \<Rightarrow> bool" where
  "q7_handover_needed position ap1_ip table =
     (position > 0.5 \<and> ip_route_show_default table \<noteq> []
      \<and> sublist ap1_ip (ip_route_show_default table))"

definition q7_step ::
  "bool \<Rightarrow> string \<Rightarrow> string \<Rightarrow> nat \<Rightarrow> q7_state \<Rightarrow> nat \<Rightarrow> q7_state" where
  "q7_step monitor ap1_ip ap2_ip duration st step =
     (let position = position_of step duration;
          st0 = st\<lparr>q7_netem := q7_netem st @ [(q7_ap1 position, q7_ap2 position)]\<rparr>
      in if q7_handover_needed position ap1_ip (default_route st0) then
        st0\<lparr>default_route :=
              ip_route_add_default (ip_route_del_default (default_route st0)) ap2_ip,
            handover_events := handover_events st0 @ [(position, AP1, AP2)],
            monitor_events :=
              (if monitor then monitor_events st0 @ [(position, AP1, AP2)]
               else monitor_events st0)\<rparr>
      else st0)"

definition q7_init :: "string \<Rightarrow> string option \<Rightarrow> q7_state" where
  "q7_init ap1_ip table =
     \<lparr>default_route = ip_route_add_default table ap1_ip,
      q7_netem = [], handover_events = [], monitor_events = [], mobility_error = False\<rparr>"

text \<open>
  \<open>for step in range(duration + 1)\<close> inside \<open>try\<close>: with \<open>duration = 0\<close> the division of
  the first iteration raises, the handler logs the error and the loop is over.
  \<open>table\<close> is the station's default route before the call; \<open>monitor\<close> says whether a
  monitor was passed (never in q7). The function returns early, before any of this, when
  it does not find the two links of the station; the model is of the calls that find
  them. The two \<open>tc\<close> commands issued before the loop are not in \<open>q7_netem\<close>.
\<close>

definition simulate_mobility ::
  "string \<Rightarrow> string \<Rightarrow> string option \<Rightarrow> bool \<Rightarrow> nat \<Rightarrow> q7_state" where
  "simulate_mobility ap1_ip ap2_ip table monitor duration =
     (if duration = 0 then (q7_init ap1_ip table)\<lparr>mobility_error := True\<rparr>
      else foldl (q7_step monitor ap1_ip ap2_ip duration) (q7_init ap1_ip table)
             [0..<duration + 1])"

section \<open>Measured qualities and the settle window (q10)\<close>

text \<open>
  \<open>check_connection_quality\<close> reads the text that \<open>ping -c 3 -q\<close> printed. Each of the two
  numbers it looks for is either not in the text (the marker string is missing, and a
  default is taken), or there but not accepted by \<open>float\<close> (the \<open>except\<close> branch returns 0),
  or a number.
\<close>

datatype ping_field = Absent | Unparsable | Parsed real

record ping_text =
  loss_field :: ping_field
  latency_field :: ping_field

definition check_connection_quality :: "ping_text \<Rightarrow> real" where
  "check_connection_quality result =
     (case loss_field result of
        Unparsable \<Rightarrow> 0
      | Absent \<Rightarrow>
          (case latency_field result of
             Unparsable \<Rightarrow> 0
           | Absent \<Rightarrow> max 0 (100 - (1000 / 5) - 100)
           | Parsed avg_latency \<Rightarrow> max 0 (100 - (avg_latency / 5) - 100))
      | Parsed packet_loss \<Rightarrow>
          (case latency_field result of
             Unparsable \<Rightarrow> 0
           | Absent \<Rightarrow> max 0 (100 - (1000 / 5) - packet_loss)
           | Parsed avg_latency \<Rightarrow> max 0 (100 - (avg_latency / 5) - packet_loss)))"

text \<open>\<open>get_current_ap\<close> answers \<open>'s1'\<close>, \<open>'s2'\<close> or \<open>'None'\<close>.\<close>

datatype q10_ap = S1 | S2 | NoAP

text \<open>
  What the loop of q10 reads from outside, per step: the wall clock
  (\<open>time.time() - start_time\<close>), whether updating the link (\<open>connectionsTo\<close>, \<open>tc qdisc
  replace\<close>) raises, and the two ping texts (via AP1, then via AP2). Index 0 holds the
  measurements taken before the loop.
\<close>

record q10_env =
  elapsed_at :: "nat \<Rightarrow> real"
  sink_raises :: "nat \<Rightarrow> bool"
  ping_ap1 :: "nat \<Rightarrow> ping_text"
  ping_ap2 :: "nat \<Rightarrow> ping_text"
  initial_ap :: q10_ap

text \<open>
  The \<open>info\<close> lines of the loop. In the state below, \<open>info_log\<close> is the sequence of
  these lines and \<open>sample_times\<close> is the list the source calls \<open>times\<close>.
\<close>

datatype q10_msg =
  Reduced_quality nat nat
| Handover_msg
| AP_qualities real real
| Routed_via q10_ap
| Error_in_step nat

record q10_state =
  current_ap :: q10_ap
  handover_occurred :: bool
  handover_time :: real
  handover_step :: nat
  sample_times :: "real list"
  ap1_quality :: "real list"
  ap2_quality :: "real list"
  connected_ap :: "q10_ap list"
  route_dev :: q10_ap
  tc_netem :: "(nat \<times> nat) list"
  info_log :: "q10_msg list"

text \<open>
  The decision of one step (\<open>if ap1_qual < ap2_qual - 15: ... else: ...\<close>). Before it the
  route was set via AP2 for the second measurement; the last branch sets it back.
\<close>

definition q10_decide :: "real \<Rightarrow> nat \<Rightarrow> real \<Rightarrow> real \<Rightarrow> q10_state \<Rightarrow> q10_state" where
  "q10_decide elapsed step ap1_qual ap2_qual st =
     (if ap1_qual < ap2_qual - 15 then
        (if current_ap st = S1 then
           (let st1 = st\<lparr>current_ap := S2, info_log := info_log st @ [Handover_msg]\<rparr> in
            if \<not> handover_occurred st1 then
              st1\<lparr>handover_time := elapsed, handover_step := step, handover_occurred := True\<rparr>
            else st1)
         else st)
      else
        (if current_ap st = S2 then st
         else st\<lparr>route_dev := S1\<rparr>))"

text \<open>
  The body of the loop for one step, and whether it ends in \<open>break\<close>. When the link
  update raises, the handler logs \<open>Error in step\<close> and the rest of the body is skipped.
\<close>

definition q10_body :: "q10_env \<Rightarrow> nat \<Rightarrow> q10_state \<Rightarrow> q10_state \<times> bool" where
  "q10_body env step st =
     (let elapsed = elapsed_at env step;
          delay = 5 + step * 5;
          loss = step
      in if sink_raises env step then (st\<lparr>info_log := info_log st @ [Error_in_step step]\<rparr>, False)
         else
           (let st1 = st\<lparr>tc_netem := tc_netem st @ [(delay, loss)],
                          info_log := info_log st @ [Reduced_quality delay loss]\<rparr>;
                ap1_qual = check_connection_quality (ping_ap1 env step);
                st2 = st1\<lparr>route_dev := S2\<rparr>;
                ap2_qual = check_connection_quality (ping_ap2 env step);
                st3 = q10_decide elapsed step ap1_qual ap2_qual st2;
                st4 = st3\<lparr>sample_times := sample_times st3 @ [elapsed],
                           ap1_quality := ap1_quality st3 @ [ap1_qual],
                           ap2_quality := ap2_quality st3 @ [ap2_qual],
                           connected_ap := connected_ap st3 @ [current_ap st3],
                           info_log := info_log st3 @ [AP_qualities ap1_qual ap2_qual,
                                             Routed_via (current_ap st3)]\<rparr>
            in (st4, handover_occurred st4 \<and> step > handover_step st4 + 5)))"

fun q10_loop :: "q10_env \<Rightarrow> nat list \<Rightarrow> q10_state \<Rightarrow> q10_state" where
  "q10_loop env [] st = st"
| "q10_loop env (step # steps) st =
     (case q10_body env step st of
        (st1, brk) \<Rightarrow> if brk then st1 else q10_loop env steps st1)"

definition q10_init :: "q10_env \<Rightarrow> q10_state" where
  "q10_init env =
     \<lparr>current_ap = initial_ap env,
      handover_occurred = False, handover_time = 0, handover_step = 0,
      sample_times = [0],
      ap1_quality = [check_connection_quality (ping_ap1 env 0)],
      ap2_quality = [check_connection_quality (ping_ap2 env 0)],
      connected_ap = [initial_ap env],
      route_dev = S1, tc_netem = [], info_log = []\<rparr>"

text \<open>\<open>for step in range(1, 21)\<close>.\<close>

definition q10_run :: "q10_env \<Rightarrow> q10_state" where
  "q10_run env = q10_loop env [1..<21] (q10_init env)"

text \<open>
  The steps whose body was entered, read off the log: every entered step leaves either
  its \<open>Reduced quality\<close> line (whose loss is the step) or its \<open>Error in step\<close> line.
\<close>

fun step_of_msg :: "q10_msg \<Rightarrow> nat option" where
  "step_of_msg (Reduced_quality d l) = Some l"
| "step_of_msg (Error_in_step s) = Some s"
| "step_of_msg _ = None"

definition steps_entered :: "q10_state \<Rightarrow> nat list" where
  "steps_entered st = List.map_filter step_of_msg (info_log st)"

section \<open>Distance-based model and the three-way decision (q11)\<close>

definition total_steps :: nat where
  "total_steps = 30"

text \<open>\<open>current_position = step * (140 / total_steps)\<close>.\<close>

definition current_position :: "nat \<Rightarrow> real" where
  "current_position step = real step * (140 / real total_steps)"

text \<open>
  The three access points differ in the reference position only (20, 70 and 120):
  \<open>dist_to_ap = abs(current_position - ref)\<close>,
  \<open>delay_ap = max(5, min(100, 5 + dist_to_ap))\<close>,
  \<open>loss_ap = max(0, min(20, dist_to_ap / 5))\<close>.
\<close>

definition dist_to_ap :: "real \<Rightarrow> real \<Rightarrow> real" where
  "dist_to_ap ref position = \<bar>position - ref\<bar>"

definition delay_ap :: "real \<Rightarrow> real" where
  "delay_ap d = max 5 (min 100 (5 + d))"

definition loss_ap :: "real \<Rightarrow> real" where
  "loss_ap d = max 0 (min 20 (d / 5))"

text \<open>\<open>ap_quality = 100 - delay_ap - loss_ap * 5\<close>.\<close>

definition ap_quality :: "real \<Rightarrow> real \<Rightarrow> real" where
  "ap_quality d l = 100 - d - l * 5"

definition quality_at :: "real \<Rightarrow> real \<Rightarrow> real" where
  "quality_at ref position =
     ap_quality (delay_ap (dist_to_ap ref position)) (loss_ap (dist_to_ap ref position))"

text \<open>The \<open>if\<close>/\<open>elif\<close> chain that computes \<open>best_ap\<close>.\<close>

definition select_best_ap :: "nat \<Rightarrow> real \<Rightarrow> real \<Rightarrow> real \<Rightarrow> nat" where
  "select_best_ap cur q1 q2 q3 =
     (if cur = 1 then
        (if q2 > q1 + 15 then 2 else if q3 > q1 + 15 then 3 else cur)
      else if cur = 2 then
        (if q1 > q2 + 15 then 1 else if q3 > q2 + 15 then 3 else cur)
      else if cur = 3 then
        (if q1 > q3 + 15 then 1 else if q2 > q3 + 15 then 2 else cur)
      else cur)"

text \<open>
  The \<open>info\<close> lines of the loop: the position, the error of a failed link update, a
  handover, the access point in use with its quality, and the three qualities.
\<close>

datatype q11_msg =
  Position_msg real
| Error_updating
| Handover_at real nat nat
| Using_ap nat real
| Link_qualities real real real

record q11_state =
  q11_current_ap :: nat
  handover_positions :: "(real \<times> nat \<times> nat) list"
  q11_route :: nat
  q11_netem :: "(nat \<times> real \<times> real) list"
  q11_log :: "q11_msg list"

text \<open>
  The \<open>try\<close> block: the three link updates in turn; the first that raises ends the block
  in the handler, which logs the error. \<open>ok n\<close> says whether the update of link \<open>n\<close>
  succeeds at this step. The \<open>tc\<close> command prints the delay with no decimals and the
  loss with one; the model records the values themselves.
\<close>

definition update_links ::
  "(nat \<Rightarrow> bool) \<Rightarrow> real \<times> real \<Rightarrow> real \<times> real \<Rightarrow> real \<times> real \<Rightarrow> q11_state \<Rightarrow> q11_state" where
  "update_links ok p1 p2 p3 st =
     (if \<not> ok 1 then st\<lparr>q11_log := q11_log st @ [Error_updating]\<rparr>
      else let st1 = st\<lparr>q11_netem := q11_netem st @ [(1, p1)]\<rparr> in
        if \<not> ok 2 then st1\<lparr>q11_log := q11_log st1 @ [Error_updating]\<rparr>
        else let st2 = st1\<lparr>q11_netem := q11_netem st1 @ [(2, p2)]\<rparr> in
          if \<not> ok 3 then st2\<lparr>q11_log := q11_log st2 @ [Error_updating]\<rparr>
          else st2\<lparr>q11_netem := q11_netem st2 @ [(3, p3)]\<rparr>)"

text \<open>
  From \<open>best_ap = current_ap\<close> to \<open>current_ap = best_ap\<close>: the decision rule and the
  recording of the handover.
\<close>

definition q11_decide :: "real \<Rightarrow> real \<Rightarrow> real \<Rightarrow> real \<Rightarrow> q11_state \<Rightarrow> q11_state" where
  "q11_decide position q1 q2 q3 st =
     (let best_ap = select_best_ap (q11_current_ap st) q1 q2 q3 in
      if best_ap \<noteq> q11_current_ap st then
        st\<lparr>handover_positions :=
             handover_positions st @ [(position, q11_current_ap st, best_ap)],
           q11_log := q11_log st @ [Handover_at position (q11_current_ap st) best_ap],
           q11_current_ap := best_ap\<rparr>
      else st)"

text \<open>
  The routing update after the decision; \<open>best_ap\<close> equals \<open>current_ap\<close> there, whether a
  handover was recorded or not.
\<close>

definition q11_update_route :: "real \<Rightarrow> real \<Rightarrow> real \<Rightarrow> q11_state \<Rightarrow> q11_state" where
  "q11_update_route q1 q2 q3 st =
     (let best_ap = q11_current_ap st in
      if best_ap = 1 then st\<lparr>q11_route := 1, q11_log := q11_log st @ [Using_ap 1 q1]\<rparr>
      else if best_ap = 2 then st\<lparr>q11_route := 2, q11_log := q11_log st @ [Using_ap 2 q2]\<rparr>
      else st\<lparr>q11_route := 3, q11_log := q11_log st @ [Using_ap 3 q3]\<rparr>)"

definition q11_body :: "(nat \<Rightarrow> nat \<Rightarrow> bool) \<Rightarrow> q11_state \<Rightarrow> nat \<Rightarrow> q11_state" where
  "q11_body ok st step =
     (let position = current_position step;
          st1 = st\<lparr>q11_log := q11_log st @ [Position_msg position]\<rparr>;
          d1 = dist_to_ap 20 position;
          d2 = dist_to_ap 70 position;
          d3 = dist_to_ap 120 position;
          st2 = update_links (ok step) (delay_ap d1, loss_ap d1) (delay_ap d2, loss_ap d2)
                  (delay_ap d3, loss_ap d3) st1;
          q1 = ap_quality (delay_ap d1) (loss_ap d1);
          q2 = ap_quality (delay_ap d2) (loss_ap d2);
          q3 = ap_quality (delay_ap d3) (loss_ap d3);
          st3 = q11_decide position q1 q2 q3 st2;
          st4 = q11_update_route q1 q2 q3 st3
      in st4\<lparr>q11_log := q11_log st4 @ [Link_qualities q1 q2 q3]\<rparr>)"

definition q11_init :: q11_state where
  "q11_init =
     \<lparr>q11_current_ap = 1, handover_positions = [], q11_route = 1, q11_netem = [],
      q11_log = []\<rparr>"

text \<open>\<open>for step in range(1, total_steps + 1)\<close>; the state after the first \<open>n\<close> steps.\<close>

definition q11_after :: "(nat \<Rightarrow> nat \<Rightarrow> bool) \<Rightarrow> nat \<Rightarrow> q11_state" where
  "q11_after ok n = foldl (q11_body ok) q11_init [1..<n + 1]"

definition q11_run :: "(nat \<Rightarrow> nat \<Rightarrow> bool) \<Rightarrow> q11_state" where
  "q11_run ok = q11_after ok total_steps"

fun position_of_msg :: "q11_msg \<Rightarrow> real option" where
  "position_of_msg (Position_msg p) = Some p"
| "position_of_msg _ = None"

definition positions_logged :: "q11_state \<Rightarrow> real list" where
  "positions_logged st = List.map_filter position_of_msg (q11_log st)"

section \<open>A sample environment for q10\<close>

text \<open>
  An environment in which no link update raises: the clock advances by three seconds
  per step, the ping via AP1 reports the loss and twice the delay that the step set on
  the link (\<open>loss = step\<close>, \<open>delay = 5 + step * 5\<close>), the ping via AP2 reports 30 ms and
  1 % throughout, and the station starts on AP1. The score of AP1 at step \<open>s\<close> is then
  \<open>98 - 3 * s\<close> and the score of AP2 is 93.
\<close>

definition example_env :: q10_env where
  "example_env =
     \<lparr>elapsed_at = (\<lambda>step. 3 * real step),
      sink_raises = (\<lambda>step. False),
      ping_ap1 = (\<lambda>step. \<lparr>loss_field = Parsed (real step),
                            latency_field = Parsed (2 * (5 + real step * 5))\<rparr>),
      ping_ap2 = (\<lambda>step. \<lparr>loss_field = Parsed 1, latency_field = Parsed 30\<rparr>),
      initial_ap = S1\<rparr>"

section \<open>Invariants used in the proofs\<close>

text \<open>
  The log of q7 and q8 is empty, or holds one handover from AP1 to AP2 and the default
  route goes via the address of AP2.
\<close>

definition q7_inv :: "string \<Rightarrow> q7_state \<Rightarrow> bool" where
  "q7_inv ap2_ip st =
     (handover_events st = [] \<or>
      ((\<exists>p. handover_events st = [(p, AP1, AP2)]) \<and> default_route st = Some ap2_ip))"

text \<open>
  The loop of q10, started at step \<open>a\<close> in state \<open>st\<close>, ends in state \<open>final\<close> with \<open>n\<close> the
  last step entered: the steps entered are \<open>a, ..., n\<close>; the loop stops before step 20
  only by \<open>break\<close>, at a step whose link update did not raise; and no earlier step came
  to a \<open>break\<close>.
\<close>

definition q10_ends_at :: "q10_env \<Rightarrow> nat \<Rightarrow> q10_state \<Rightarrow> q10_state \<Rightarrow> nat \<Rightarrow> bool" where
  "q10_ends_at env a st final n =
     (a \<le> n + 1 \<and> n \<le> 20
      \<and> steps_entered final = steps_entered st @ [a..<n + 1]
      \<and> (n < 20 \<longrightarrow> \<not> sink_raises env n \<and> handover_occurred final
                      \<and> n > handover_step final + 5)
      \<and> (\<forall>s. a \<le> s \<and> s < n \<longrightarrow>
             sink_raises env s \<or> \<not> handover_occurred final \<or> s \<le> handover_step final + 5))"

text \<open>The candidate that the rule of q11 selects at a position, from the scores there.\<close>

definition best_at :: "nat \<Rightarrow> real \<Rightarrow> nat" where
  "best_at cur position =
     select_best_ap cur (quality_at 20 position) (quality_at 70 position)
       (quality_at 120 position)"

text \<open>The number of \<open>Error updating link parameters\<close> lines in the log of q11.\<close>

definition errors_logged :: "q11_state \<Rightarrow> nat" where
  "errors_logged st = length (filter (\<lambda>m. m = Error_updating) (q11_log st))"

section \<open>Sample environments with a failing link update\<close>

text \<open>
  For q10: the sample environment, except that the link update of step 7 raises. For
  q11: every link update succeeds except that of link 2 at step 5.
\<close>

definition failing_env :: q10_env where
  "failing_env = example_env\<lparr>sink_raises := (\<lambda>step. step = 7)\<rparr>"

definition flaky_links :: "nat \<Rightarrow> nat \<Rightarrow> bool" where
  "flaky_links step link = (\<not> (step = 5 \<and> link = 2))"

section \<open>Monotonicity of the bandwidths\<close>

text \<open>
  C6. In the linear interpolation model of the two-candidate setup, for positions
  \<open>p1 \<le> p2\<close> the bandwidth computed for AP1 at \<open>p2\<close> is at most the one at \<open>p1\<close>, and the
  bandwidth computed for AP2 at \<open>p2\<close> is at least the one at \<open>p1\<close>; this holds for the
  formulas of q6 and for those of q7 and q8 (and for all real positions, in particular
  for those in [0,1]).
\<close>

theorem linear_bw_monotone:
  assumes "p1 \<le> p2"
  shows "bw (q6_ap1_new p2) \<le> bw (q6_ap1_new p1)
       \<and> bw (q6_ap2_new p1) \<le> bw (q6_ap2_new p2)
       \<and> bw (q7_ap1 p2) \<le> bw (q7_ap1 p1)
       \<and> bw (q7_ap2 p1) \<le> bw (q7_ap2 p2)"
  using assms by (simp add: q6_ap1_new_def q6_ap2_new_def q7_ap1_def q7_ap2_def max_def)

theorem linear_bw_monotone_witness:
  "(1/4 :: real) \<le> 3/4
   \<and> bw (q6_ap1_new (3/4)) = 23/4 \<and> bw (q6_ap1_new (1/4)) = 61/4
   \<and> bw (q6_ap1_new (3/4)) \<le> bw (q6_ap1_new (1/4))
   \<and> bw (q6_ap2_new (1/4)) \<le> bw (q6_ap2_new (3/4))"
  using linear_bw_monotone [of "1/4" "3/4"]
  by (simp add: q6_ap1_new_def)


section \<open>The distance-based model\<close>

text \<open>
  C7. In q11 the delay and the loss of a candidate are non-decreasing in the distance
  \<open>|position - reference|\<close>, the delay stays within [5, 100] ms and the loss within
  [0, 20] %, and at distance 0 (the station at the reference position) the delay is 5 ms
  and the loss 0 %.
\<close>

theorem distance_model_monotone_clamped:
  "(d1 \<le> d2 \<longrightarrow> delay_ap d1 \<le> delay_ap d2 \<and> loss_ap d1 \<le> loss_ap d2)
   \<and> 5 \<le> delay_ap d \<and> delay_ap d \<le> 100
   \<and> 0 \<le> loss_ap d \<and> loss_ap d \<le> 20
   \<and> 0 \<le> dist_to_ap ref position
   \<and> dist_to_ap ref ref = 0
   \<and> delay_ap 0 = 5 \<and> loss_ap 0 = 0"
  by (auto simp add: delay_ap_def loss_ap_def dist_to_ap_def)

theorem distance_model_monotone_clamped_witness:
  "(10::real) \<le> 50
   \<and> delay_ap 10 = 15 \<and> delay_ap 50 = 55 \<and> delay_ap 10 \<le> delay_ap 50
   \<and> loss_ap 10 = 2 \<and> loss_ap 50 = 10 \<and> loss_ap 10 \<le> loss_ap 50
   \<and> delay_ap 200 \<le> 100 \<and> loss_ap 200 \<le> 20
   \<and> dist_to_ap 70 70 = 0"
  using distance_model_monotone_clamped [of 10 50 200 70 70]
  by (simp add: delay_ap_def loss_ap_def)

section \<open>The hysteresis comparison\<close>

text \<open>
  C1. With margin 15, an active candidate of score 50 is kept against a challenger of
  score 64 (and of score 65), and left for a challenger of score 65.01: the test is the
  strict comparison \<open>score(B) > score(A) + 15\<close>. This holds for the decision of q11
  (\<open>select_best_ap\<close>, all three active candidates, the first challenger in the order of
  the \<open>if\<close>/\<open>elif\<close> chain winning) and for the decision of q10 (\<open>q10_decide\<close>, where the
  only handover is from AP1 to AP2 and the test is written \<open>ap1_qual < ap2_qual - 15\<close>).
\<close>

theorem hysteresis_strict:
  "select_best_ap 1 50 64 0 = 1
   \<and> select_best_ap 1 50 65.01 0 = 2
   \<and> select_best_ap 1 50 65 0 = 1
   \<and> (select_best_ap 1 q1 q2 q3 = 2 \<longleftrightarrow> q2 > q1 + 15)
   \<and> (select_best_ap 1 q1 q2 q3 = 3 \<longleftrightarrow> \<not> q2 > q1 + 15 \<and> q3 > q1 + 15)
   \<and> (select_best_ap 2 q1 q2 q3 = 1 \<longleftrightarrow> q1 > q2 + 15)
   \<and> (select_best_ap 2 q1 q2 q3 = 3 \<longleftrightarrow> \<not> q1 > q2 + 15 \<and> q3 > q2 + 15)
   \<and> (select_best_ap 3 q1 q2 q3 = 1 \<longleftrightarrow> q1 > q3 + 15)
   \<and> (select_best_ap 3 q1 q2 q3 = 2 \<longleftrightarrow> \<not> q1 > q3 + 15 \<and> q2 > q3 + 15)
   \<and> current_ap (q10_decide t s 50 64 st) = current_ap st
   \<and> (current_ap st = S1 \<longrightarrow> current_ap (q10_decide t s 50 65.01 st) = S2)
   \<and> (current_ap (q10_decide t s a b st) \<noteq> current_ap st
        \<longleftrightarrow> current_ap st = S1 \<and> b > a + 15)"
  by (auto simp add: select_best_ap_def q10_decide_def Let_def)

theorem hysteresis_strict_witness:
  "select_best_ap 1 50 64 0 = 1
   \<and> select_best_ap 1 50 65.01 0 = 2
   \<and> current_ap (q10_init example_env) = S1
   \<and> current_ap (q10_decide 0 1 50 64 (q10_init example_env)) = S1
   \<and> current_ap (q10_decide 0 1 50 65.01 (q10_init example_env)) = S2"
  using hysteresis_strict [of 50 64 0 0 1 "q10_init example_env" 50 "65.01"]
  by (simp add: q10_init_def example_env_def)

section \<open>Scores below zero\<close>

text \<open>
  C9, as stated, fails for q10: \<open>check_connection_quality\<close> floors the score at 0. A ping
  that loses every packet prints \<open>100% packet loss\<close> and no \<open>min/avg/max\<close> line; the raw
  value \<open>100 - 1000 / 5 - 100\<close> is \<open>-200\<close> and the score returned is 0.
\<close>

theorem q10_quality_floored:
  "check_connection_quality \<lparr>loss_field = Parsed 100, latency_field = Absent\<rparr> = 0
   \<and> check_connection_quality \<lparr>loss_field = Parsed 100, latency_field = Absent\<rparr>
       \<noteq> 100 - (1000 / 5) - 100"
  by (simp add: check_connection_quality_def)

lemma update_links_current_ap:
  "q11_current_ap (update_links ok p1 p2 p3 st) = q11_current_ap st"
  by (simp add: update_links_def Let_def)

lemma q11_update_route_current_ap:
  "q11_current_ap (q11_update_route q1 q2 q3 st) = q11_current_ap st"
  by (simp add: q11_update_route_def Let_def)

lemma q11_decide_current_ap:
  "q11_current_ap (q11_decide p q1 q2 q3 st) = select_best_ap (q11_current_ap st) q1 q2 q3"
  by (simp add: q11_decide_def Let_def)

lemma q11_body_current_ap:
  "q11_current_ap (q11_body ok st step) =
     select_best_ap (q11_current_ap st) (quality_at 20 (current_position step))
       (quality_at 70 (current_position step)) (quality_at 120 (current_position step))"
  by (simp add: q11_body_def Let_def quality_at_def q11_update_route_current_ap
      q11_decide_current_ap update_links_current_ap)

text \<open>
  C9, amended. In q11 the score \<open>100 - delay - loss * 5\<close> has no floor: at step 30
  (position 140) the score of AP1 is \<open>-100\<close>; the candidate that a step of the loop makes
  active is \<open>select_best_ap\<close> applied to these scores as they are, and \<open>select_best_ap\<close>
  distinguishes negative scores (from \<open>-100\<close> to a challenger of \<open>-80\<close> it hands over,
  which it would not with both floored at 0). In q10 the score is floored: it is never
  negative.
\<close>

theorem negative_scores_ranked:
  "quality_at 20 (current_position 30) = -100
   \<and> q11_current_ap (q11_body ok st step) =
       select_best_ap (q11_current_ap st) (quality_at 20 (current_position step))
         (quality_at 70 (current_position step)) (quality_at 120 (current_position step))
   \<and> select_best_ap 1 (-100) (-80) (-100) = 2
   \<and> select_best_ap 1 (max 0 (-100)) (max 0 (-80)) (max 0 (-100)) = 1
   \<and> 0 \<le> check_connection_quality r"
  by (simp add: q11_body_current_ap quality_at_def current_position_def total_steps_def
      dist_to_ap_def delay_ap_def loss_ap_def ap_quality_def select_best_ap_def
      check_connection_quality_def split: ping_field.split)

theorem negative_scores_ranked_witness:
  "quality_at 20 (current_position 30) = -100
   \<and> q11_current_ap (q11_body (\<lambda>s n. True) q11_init 30) = 2
   \<and> 0 \<le> check_connection_quality \<lparr>loss_field = Parsed 100, latency_field = Absent\<rparr>"
  using negative_scores_ranked
    [of "\<lambda>s n. True" q11_init 30 "\<lparr>loss_field = Parsed 100, latency_field = Absent\<rparr>"]
  by (simp add: q11_init_def quality_at_def current_position_def total_steps_def
      dist_to_ap_def delay_ap_def loss_ap_def ap_quality_def select_best_ap_def)

section \<open>The run of q6\<close>

lemma q6_run20: "q6_handovers (adjust_link_quality 20) = [Handover_to 11 (11/20) 2]"
  by code_simp

text \<open>
  C2. With 20 steps the loop of q6 writes exactly one handover line, at step 11
  (position 11/20 = 0.55), from AP1 to AP2. The loop itself takes its decision from
  \<open>should_use_ap2\<close> (AP2 has the larger bandwidth and the smaller loss), which holds from
  step 11 on; scored with the quality formula of q11, \<open>100 - delay - loss * 5\<close>, step 11
  is also the first step at which the score of AP2 exceeds the score of AP1 by more
  than 15.
\<close>

theorem q6_single_handover:
  "q6_handovers (adjust_link_quality 20) = [Handover_to 11 (position_of 11 20) 2]
   \<and> position_of 11 20 = 11/20
   \<and> (s \<le> 20 \<longrightarrow>
        (ap_quality (delay (q6_ap2_new (position_of s 20))) (loss (q6_ap2_new (position_of s 20)))
          - ap_quality (delay (q6_ap1_new (position_of s 20))) (loss (q6_ap1_new (position_of s 20)))
          > 15
         \<longleftrightarrow> 11 \<le> s))
   \<and> (s \<le> 20 \<longrightarrow> (should_use_ap2 (position_of s 20) \<longleftrightarrow> 11 \<le> s))"
proof -
  have p: "position_of 11 20 = 11/20"
    by (simp add: position_of_def)
  have gap: "s \<le> 20 \<longrightarrow>
        (ap_quality (delay (q6_ap2_new (position_of s 20))) (loss (q6_ap2_new (position_of s 20)))
          - ap_quality (delay (q6_ap1_new (position_of s 20))) (loss (q6_ap1_new (position_of s 20)))
          > 15
         \<longleftrightarrow> 11 \<le> s)"
    by (auto simp add: ap_quality_def q6_ap1_new_def q6_ap2_new_def position_of_def min_def)
  have rule: "s \<le> 20 \<longrightarrow> (should_use_ap2 (position_of s 20) \<longleftrightarrow> 11 \<le> s)"
    by (auto simp add: should_use_ap2_def q6_ap1_new_def q6_ap2_new_def position_of_def
        min_def max_def)
  from p gap rule show ?thesis
    by (simp only: q6_run20 simp_thms)
qed

theorem q6_single_handover_witness:
  "q6_handovers (adjust_link_quality 20) = [Handover_to 11 (11/20) 2]
   \<and> \<not> should_use_ap2 (position_of 10 20) \<and> should_use_ap2 (position_of 11 20)"
  using q6_single_handover [of 10] q6_single_handover [of 11]
  by simp

section \<open>The positional handover of q7 and q8\<close>

lemma q7_step_fires:
  "q7_handover_needed (position_of step duration) ap1_ip (default_route st) \<Longrightarrow>
   q7_step monitor ap1_ip ap2_ip duration st step =
     st\<lparr>q7_netem := q7_netem st
            @ [(q7_ap1 (position_of step duration), q7_ap2 (position_of step duration))],
        default_route := Some ap2_ip,
        handover_events := handover_events st @ [(position_of step duration, AP1, AP2)],
        monitor_events :=
          (if monitor then monitor_events st @ [(position_of step duration, AP1, AP2)]
           else monitor_events st)\<rparr>"
  by (simp add: q7_step_def Let_def ip_route_add_default_def ip_route_del_default_def)

lemma q7_step_idle:
  "\<not> q7_handover_needed (position_of step duration) ap1_ip (default_route st) \<Longrightarrow>
   q7_step monitor ap1_ip ap2_ip duration st step =
     st\<lparr>q7_netem := q7_netem st
            @ [(q7_ap1 (position_of step duration), q7_ap2 (position_of step duration))]\<rparr>"
  by (simp add: q7_step_def Let_def)

lemma q7_step_inv:
  assumes "\<not> sublist ap1_ip (ip_route_show_default (Some ap2_ip))"
    and "q7_inv ap2_ip st"
  shows "q7_inv ap2_ip (q7_step monitor ap1_ip ap2_ip duration st step)"
proof (cases "q7_handover_needed (position_of step duration) ap1_ip (default_route st)")
  case True
  with assms(1) have "default_route st \<noteq> Some ap2_ip"
    by (auto simp add: q7_handover_needed_def)
  with assms(2) have "handover_events st = []"
    by (auto simp add: q7_inv_def)
  with True show ?thesis
    by (simp add: q7_step_fires q7_inv_def)
next
  case False
  with assms(2) show ?thesis
    by (simp add: q7_step_idle q7_inv_def)
qed

lemma q7_foldl_inv:
  "\<not> sublist ap1_ip (ip_route_show_default (Some ap2_ip)) \<Longrightarrow> q7_inv ap2_ip st \<Longrightarrow>
   q7_inv ap2_ip (foldl (q7_step monitor ap1_ip ap2_ip duration) st steps)"
  by (induction steps arbitrary: st) (simp_all add: q7_step_inv)

lemma q7_init_inv: "q7_inv ap2_ip (q7_init ap1_ip table)"
  by (simp add: q7_inv_def q7_init_def)

lemma q7_run_inv:
  assumes "\<not> sublist ap1_ip (ip_route_show_default (Some ap2_ip))"
  shows "q7_inv ap2_ip (simulate_mobility ap1_ip ap2_ip table monitor duration)"
proof (cases "duration = 0")
  case True
  then show ?thesis
    by (simp add: simulate_mobility_def q7_inv_def q7_init_def)
next
  case False
  have "q7_inv ap2_ip (foldl (q7_step monitor ap1_ip ap2_ip duration) (q7_init ap1_ip table)
          [0..<duration + 1])"
    using assms by (rule q7_foldl_inv) (rule q7_init_inv)
  with False show ?thesis
    by (simp only: simulate_mobility_def if_False)
qed

lemma q7_single_handover_when_told_apart:
  assumes "\<not> sublist ap1_ip (ip_route_show_default (Some ap2_ip))"
  shows "length (handover_events (simulate_mobility ap1_ip ap2_ip table monitor duration)) \<le> 1"
  using q7_run_inv [OF assms, of table monitor duration] by (auto simp add: q7_inv_def)

lemma q7_run20_distinct:
  "handover_events (simulate_mobility ''10.0.0.101'' ''10.0.0.102'' None False 20)
     = [(11/20, AP1, AP2)]"
  by code_simp

lemma q7_run20_equal:
  "handover_events (simulate_mobility ''127.0.0.1'' ''127.0.0.1'' None False 20)
     = [(11/20, AP1, AP2), (12/20, AP1, AP2), (13/20, AP1, AP2), (14/20, AP1, AP2),
        (15/20, AP1, AP2), (16/20, AP1, AP2), (17/20, AP1, AP2), (18/20, AP1, AP2),
        (19/20, AP1, AP2), (20/20, AP1, AP2)]"
  by code_simp


text \<open>
  C10. A step of q7 and q8 takes its decision from the position and the routing table
  alone, never from the bandwidth, delay and loss it has just computed. But the test is
  whether the address of AP1 occurs in the text of the default route, and after the
  handover that text names the address of AP2. When the two switches report the same
  address, the test holds again at every later step: the run of 20 steps from an empty
  routing table then records ten handovers from AP1 to AP2, one at each of the steps
  11 to 20, where the property allows one. With the addresses 10.0.0.101 and 10.0.0.102
  the same run records one handover, at step 11; more generally one at most whenever
  the address of AP1 does not occur in the route text of AP2
  (\<open>q7_single_handover_when_told_apart\<close>).
\<close>

theorem handover_repeats_with_equal_addresses:
  "handover_events (simulate_mobility ''127.0.0.1'' ''127.0.0.1'' None False 20)
     = [(11/20, AP1, AP2), (12/20, AP1, AP2), (13/20, AP1, AP2), (14/20, AP1, AP2),
        (15/20, AP1, AP2), (16/20, AP1, AP2), (17/20, AP1, AP2), (18/20, AP1, AP2),
        (19/20, AP1, AP2), (20/20, AP1, AP2)]
   \<and> length (handover_events (simulate_mobility ''127.0.0.1'' ''127.0.0.1'' None False 20)) = 10
   \<and> \<not> length (handover_events (simulate_mobility ''127.0.0.1'' ''127.0.0.1'' None False 20)) \<le> 1
   \<and> handover_events (simulate_mobility ''10.0.0.101'' ''10.0.0.102'' None False 20)
       = [(11/20, AP1, AP2)]"
  by (simp add: q7_run20_equal q7_run20_distinct)

section \<open>The loop of q10\<close>

lemma steps_entered_append:
  "List.map_filter step_of_msg (xs @ ys) = List.map_filter step_of_msg xs @ List.map_filter step_of_msg ys"
  by (simp add: List.map_filter_def)

lemma q10_decide_steps:
  "steps_entered (q10_decide t s a b st) = steps_entered st"
  by (simp add: q10_decide_def Let_def steps_entered_def steps_entered_append List.map_filter_def)

lemma q10_body_steps:
  "steps_entered (fst (q10_body env s st)) = steps_entered st @ [s]"
  by (simp add: q10_body_def Let_def steps_entered_def q10_decide_def List.map_filter_def)

lemma q10_body_brk:
  "snd (q10_body env s st) \<longleftrightarrow>
     \<not> sink_raises env s \<and> handover_occurred (fst (q10_body env s st))
     \<and> s > handover_step (fst (q10_body env s st)) + 5"
  by (simp add: q10_body_def Let_def)

lemma q10_body_kept:
  "handover_occurred st \<Longrightarrow>
   handover_occurred (fst (q10_body env s st))
   \<and> handover_step (fst (q10_body env s st)) = handover_step st"
  by (simp add: q10_body_def Let_def q10_decide_def)

lemma q10_body_new:
  "\<not> handover_occurred st \<Longrightarrow> handover_occurred (fst (q10_body env s st)) \<Longrightarrow>
   handover_step (fst (q10_body env s st)) = s"
  by (simp add: q10_body_def Let_def q10_decide_def split: if_splits)

lemma q10_loop_Cons:
  "q10_loop env (s # xs) st =
     (if snd (q10_body env s st) then fst (q10_body env s st)
      else q10_loop env xs (fst (q10_body env s st)))"
  by (simp add: case_prod_beta)

lemma q10_loop_kept:
  "handover_occurred st \<Longrightarrow>
   handover_occurred (q10_loop env xs st) \<and> handover_step (q10_loop env xs st) = handover_step st"
proof (induction xs arbitrary: st)
  case Nil
  then show ?case by simp
next
  case (Cons s xs)
  from Cons.prems have k: "handover_occurred (fst (q10_body env s st))
     \<and> handover_step (fst (q10_body env s st)) = handover_step st"
    by (rule q10_body_kept)
  show ?case
  proof (cases "snd (q10_body env s st)")
    case True
    with k show ?thesis by (simp only: q10_loop_Cons if_True simp_thms)
  next
    case False
    from k Cons.IH [of "fst (q10_body env s st)"] False show ?thesis
      by (simp only: q10_loop_Cons if_False simp_thms)
  qed
qed

lemma q10_loop_new:
  "\<not> handover_occurred st \<Longrightarrow> handover_occurred (q10_loop env xs st) \<Longrightarrow>
   handover_step (q10_loop env xs st) \<in> set xs"
proof (induction xs arbitrary: st)
  case Nil
  then show ?case by simp
next
  case (Cons s xs)
  let ?st1 = "fst (q10_body env s st)"
  show ?case
  proof (cases "handover_occurred ?st1")
    case True
    with Cons.prems(1) have h: "handover_step ?st1 = s" by (rule q10_body_new)
    have "handover_step (q10_loop env (s # xs) st) = s"
    proof (cases "snd (q10_body env s st)")
      case True
      with h show ?thesis by (simp only: q10_loop_Cons if_True)
    next
      case False
      with h q10_loop_kept [OF True, of env xs] show ?thesis
        by (simp only: q10_loop_Cons if_False)
    qed
    then show ?thesis by simp
  next
    case False
    then have nb: "\<not> snd (q10_body env s st)"
      by (subst q10_body_brk) simp
    with Cons.prems(2) have "handover_occurred (q10_loop env xs ?st1)"
      by (simp only: q10_loop_Cons if_False)
    with False have "handover_step (q10_loop env xs ?st1) \<in> set xs"
      by (rule Cons.IH)
    with nb show ?thesis by (simp only: q10_loop_Cons if_False) simp
  qed
qed

lemma q10_interval:
  assumes "a \<le> 21" and "handover_occurred st \<longrightarrow> handover_step st < a"
  shows "\<exists>n. q10_ends_at env a st (q10_loop env [a..<21] st) n"
  using assms
proof (induction "21 - a" arbitrary: a st)
  case 0
  then have "a = 21" by simp
  then have "q10_ends_at env a st (q10_loop env [a..<21] st) 20"
    by (simp add: q10_ends_at_def)
  then show ?case ..
next
  case (Suc m)
  let ?st1 = "fst (q10_body env a st)"
  from Suc.hyps(2) have a20: "a \<le> 20" and m: "m = 21 - Suc a" by simp_all
  then have upt: "[a..<21] = a # [Suc a..<21]"
    by (simp add: upt_conv_Cons)
  have s1: "steps_entered ?st1 = steps_entered st @ [a]"
    by (rule q10_body_steps)
  show ?case
  proof (cases "snd (q10_body env a st)")
    case True
    then have fin: "q10_loop env [a..<21] st = ?st1"
      by (simp only: upt q10_loop_Cons if_True)
    from True have "\<not> sink_raises env a \<and> handover_occurred ?st1 \<and> a > handover_step ?st1 + 5"
      by (subst (asm) q10_body_brk)
    with a20 s1 have "q10_ends_at env a st ?st1 a"
      by (simp add: q10_ends_at_def)
    with fin show ?thesis by auto
  next
    case False
    let ?fin = "q10_loop env [Suc a..<21] ?st1"
    from False have fin: "q10_loop env [a..<21] st = ?fin"
      by (simp only: upt q10_loop_Cons if_False)
    have inv1: "handover_occurred ?st1 \<longrightarrow> handover_step ?st1 < Suc a"
    proof (cases "handover_occurred st")
      case True
      with Suc.prems(2) q10_body_kept [OF True, of env a] show ?thesis by simp
    next
      case False
      with q10_body_new [OF False, of env a] show ?thesis by auto
    qed
    from a20 have "Suc a \<le> 21" by simp
    with m inv1 obtain n where n: "q10_ends_at env (Suc a) ?st1 ?fin n"
      using Suc.hyps(1) [of "Suc a" ?st1] by blast
    have nobrk: "sink_raises env a \<or> \<not> handover_occurred ?st1 \<or> a \<le> handover_step ?st1 + 5"
      using False by (subst (asm) q10_body_brk) auto
    have here: "sink_raises env a \<or> \<not> handover_occurred ?fin \<or> a \<le> handover_step ?fin + 5"
    proof (cases "handover_occurred ?st1")
      case True
      from q10_loop_kept [OF True, of env "[Suc a..<21]"] True nobrk show ?thesis by auto
    next
      case no: False
      show ?thesis
      proof (cases "handover_occurred ?fin")
        case True
        with no have "handover_step ?fin \<in> set [Suc a..<21]" by (rule q10_loop_new)
        then show ?thesis by simp
      next
        case False
        then show ?thesis by simp
      qed
    qed
    from n have an: "a \<le> n" by (simp add: q10_ends_at_def)
    then have cat: "[a] @ [Suc a..<n + 1] = [a..<n + 1]"
      by (simp add: upt_conv_Cons)
    from n s1 have "steps_entered ?fin = steps_entered st @ [a] @ [Suc a..<n + 1]"
      by (simp add: q10_ends_at_def)
    then have steps: "steps_entered ?fin = steps_entered st @ [a..<n + 1]"
      by (simp only: cat)
    have rest: "\<forall>s. a \<le> s \<and> s < n \<longrightarrow>
             sink_raises env s \<or> \<not> handover_occurred ?fin \<or> s \<le> handover_step ?fin + 5"
    proof (intro allI impI)
      fix s assume s: "a \<le> s \<and> s < n"
      show "sink_raises env s \<or> \<not> handover_occurred ?fin \<or> s \<le> handover_step ?fin + 5"
      proof (cases "s = a")
        case True
        with here show ?thesis by simp
      next
        case False
        with s have "Suc a \<le> s \<and> s < n" by simp
        with n show ?thesis by (simp add: q10_ends_at_def)
      qed
    qed
    from n an steps rest have "q10_ends_at env a st ?fin n"
      by (simp add: q10_ends_at_def)
    with fin show ?thesis by auto
  qed
qed

text \<open>The runs in the sample environments.\<close>

lemma example_run:
  "handover_occurred (q10_run example_env) \<and> handover_step (q10_run example_env) = 7"
  by code_simp

lemma example_steps:
  "steps_entered (q10_run example_env) = [1, 2, 3, 4, 5, 6, 7, 8, 9, 10, 11, 12, 13]"
  by code_simp

lemma example_last_update:
  "last (tc_netem (q10_run example_env)) = (70, 13)
   \<and> length (sample_times (q10_run example_env)) = 14"
  by code_simp

lemma failing_steps:
  "steps_entered (q10_run failing_env) = [1, 2, 3, 4, 5, 6, 7, 8, 9, 10, 11, 12, 13, 14]"
  by code_simp

lemma failing_run:
  "handover_occurred (q10_run failing_env) \<and> handover_step (q10_run failing_env) = 8"
  by code_simp

lemma flaky_count:
  "length (filter (\<lambda>s. \<not> (flaky_links s 1 \<and> flaky_links s 2 \<and> flaky_links s 3)) [1..<31]) = 1"
  by code_simp

section \<open>The decisions of q11 along the path\<close>

lemmas q11_defs = best_at_def select_best_ap_def quality_at_def
  dist_to_ap_def delay_ap_def loss_ap_def ap_quality_def

lemma best_at_1: "0 \<le> p \<Longrightarrow> p \<le> (195/4) \<Longrightarrow> best_at 1 p = 1"
  by (simp add: q11_defs abs_if min_def max_def) (intro conjI impI; argo)

lemma best_at_1_2: "(195/4) < p \<Longrightarrow> p \<le> (395/4) \<Longrightarrow> best_at 1 p = 2"
  by (simp add: q11_defs abs_if min_def max_def) (intro conjI impI; argo)

lemma best_at_2: "(165/4) \<le> p \<Longrightarrow> p \<le> (395/4) \<Longrightarrow> best_at 2 p = 2"
  by (simp add: q11_defs abs_if min_def max_def) (intro conjI impI; argo)

lemma best_at_2_3: "(395/4) < p \<Longrightarrow> p \<le> 140 \<Longrightarrow> best_at 2 p = 3"
  by (simp add: q11_defs abs_if min_def max_def) (intro conjI impI; argo)

lemma best_at_3: "(365/4) \<le> p \<Longrightarrow> p \<le> 140 \<Longrightarrow> best_at 3 p = 3"
  by (simp add: q11_defs abs_if min_def max_def) (intro conjI impI; argo)

lemma current_position_eq: "current_position k = real k * 14 / 3"
  by (simp add: current_position_def total_steps_def)

lemma q11_best_low: "1 \<le> k \<Longrightarrow> k < 11 \<Longrightarrow> best_at 1 (current_position k) = 1"
proof -
  assume "1 \<le> k" and "k < 11"
  then have "0 \<le> real k" and "real k \<le> 10" by simp_all
  then have "0 \<le> real k * 14 / 3" and "real k * 14 / 3 \<le> (195/4)" by (argo, argo)
  then show ?thesis by (simp only: current_position_eq best_at_1)
qed

lemma q11_best_11: "best_at 1 (current_position 11) = 2"
  by (rule best_at_1_2) (simp_all add: current_position_eq)

lemma q11_best_mid: "11 \<le> k \<Longrightarrow> k < 22 \<Longrightarrow> best_at 2 (current_position k) = 2"
proof -
  assume "11 \<le> k" and "k < 22"
  then have "11 \<le> real k" and "real k \<le> 21" by simp_all
  then have "(165/4) \<le> real k * 14 / 3" and "real k * 14 / 3 \<le> (395/4)" by (argo, argo)
  then show ?thesis by (simp only: current_position_eq best_at_2)
qed

lemma q11_best_22: "best_at 2 (current_position 22) = 3"
  by (rule best_at_2_3) (simp_all add: current_position_eq)

lemma q11_best_high: "22 \<le> k \<Longrightarrow> k \<le> 30 \<Longrightarrow> best_at 3 (current_position k) = 3"
proof -
  assume "22 \<le> k" and "k \<le> 30"
  then have "22 \<le> real k" and "real k \<le> 30" by simp_all
  then have "(365/4) \<le> real k * 14 / 3" and "real k * 14 / 3 \<le> 140" by (argo, argo)
  then show ?thesis by (simp only: current_position_eq best_at_3)
qed

lemma q11_after_Suc: "q11_after ok (Suc n) = q11_body ok (q11_after ok n) (Suc n)"
  by (simp add: q11_after_def)

lemma q11_after_current_ap_Suc:
  "q11_current_ap (q11_after ok (Suc n))
     = best_at (q11_current_ap (q11_after ok n)) (current_position (Suc n))"
  by (simp only: q11_after_Suc q11_body_current_ap best_at_def)

lemma q11_trace:
  "k \<le> 30 \<Longrightarrow>
   q11_current_ap (q11_after ok k) = (if k < 11 then 1 else if k < 22 then 2 else 3)"
proof (induction k)
  case 0
  show ?case by (simp add: q11_after_def q11_init_def)
next
  case (Suc k)
  then have ih: "q11_current_ap (q11_after ok k) = (if k < 11 then 1 else if k < 22 then 2 else 3)"
    by simp
  note step = q11_after_current_ap_Suc [of ok k]
  consider "Suc k < 11" | "Suc k = 11" | "11 < Suc k \<and> Suc k < 22" | "Suc k = 22"
    | "22 < Suc k \<and> Suc k \<le> 30"
    using Suc.prems by linarith
  then show ?case
  proof cases
    case 1
    with ih have "q11_current_ap (q11_after ok k) = 1" by simp
    with step have "q11_current_ap (q11_after ok (Suc k)) = best_at 1 (current_position (Suc k))"
      by simp
    with 1 q11_best_low [of "Suc k"] show ?thesis by simp
  next
    case 2
    with ih have "q11_current_ap (q11_after ok k) = 1" by simp
    with step have "q11_current_ap (q11_after ok (Suc k)) = best_at 1 (current_position (Suc k))"
      by simp
    with 2 q11_best_11 show ?thesis by simp
  next
    case 3
    with ih have "q11_current_ap (q11_after ok k) = 2" by simp
    with step have "q11_current_ap (q11_after ok (Suc k)) = best_at 2 (current_position (Suc k))"
      by simp
    with 3 q11_best_mid [of "Suc k"] show ?thesis by simp
  next
    case 4
    with ih have "q11_current_ap (q11_after ok k) = 2" by simp
    with step have "q11_current_ap (q11_after ok (Suc k)) = best_at 2 (current_position (Suc k))"
      by simp
    with 4 q11_best_22 show ?thesis by simp
  next
    case 5
    with ih have "q11_current_ap (q11_after ok k) = 3" by simp
    with step have "q11_current_ap (q11_after ok (Suc k)) = best_at 3 (current_position (Suc k))"
      by simp
    with 5 q11_best_high [of "Suc k"] show ?thesis by simp
  qed
qed

lemma q11_settled:
  assumes "1 \<le> k" and "k \<le> 30"
  shows "best_at (q11_current_ap (q11_after ok k)) (current_position k)
           = q11_current_ap (q11_after ok k)"
proof -
  consider "k < 11" | "11 \<le> k \<and> k < 22" | "22 \<le> k"
    by linarith
  then show ?thesis
  proof cases
    case 1
    with assms q11_trace [of k ok] q11_best_low [of k] show ?thesis by simp
  next
    case 2
    with assms q11_trace [of k ok] q11_best_mid [of k] show ?thesis by simp
  next
    case 3
    with assms q11_trace [of k ok] q11_best_high [of k] show ?thesis by simp
  qed
qed

lemma q11_decide_fixed:
  "select_best_ap (q11_current_ap st) q1 q2 q3 = q11_current_ap st \<Longrightarrow>
   q11_decide p q1 q2 q3 st = st"
  by (simp add: q11_decide_def Let_def)

lemma q10_decide_idem:
  "q10_decide t s a b (q10_decide t s a b st) = q10_decide t s a b st"
  by (simp add: q10_decide_def Let_def)

lemma q11_redecide:
  "select_best_ap (select_best_ap (q11_current_ap st) q1 q2 q3) q1 q2 q3
     = select_best_ap (q11_current_ap st) q1 q2 q3 \<Longrightarrow>
   q11_decide p q1 q2 q3 (q11_decide p q1 q2 q3 st) = q11_decide p q1 q2 q3 st"
  by (simp add: q11_decide_def Let_def)


lemma positions_update_links:
  "positions_logged (update_links ok p1 p2 p3 st) = positions_logged st"
  by (simp add: update_links_def Let_def positions_logged_def List.map_filter_def)

lemma positions_decide:
  "positions_logged (q11_decide p q1 q2 q3 st) = positions_logged st"
  by (simp add: q11_decide_def Let_def positions_logged_def List.map_filter_def)

lemma positions_update_route:
  "positions_logged (q11_update_route q1 q2 q3 st) = positions_logged st"
  by (simp add: q11_update_route_def Let_def positions_logged_def List.map_filter_def)

lemma positions_position_msg:
  "positions_logged (st\<lparr>q11_log := q11_log st @ [Position_msg p]\<rparr>) = positions_logged st @ [p]"
  by (simp add: positions_logged_def List.map_filter_def)

lemma positions_link_qualities:
  "positions_logged (st\<lparr>q11_log := q11_log st @ [Link_qualities q1 q2 q3]\<rparr>)
     = positions_logged st"
  by (simp add: positions_logged_def List.map_filter_def)

lemma q11_body_positions:
  "positions_logged (q11_body ok st s) = positions_logged st @ [current_position s]"
  by (simp only: q11_body_def Let_def positions_link_qualities positions_update_route
      positions_decide positions_update_links positions_position_msg)

lemma q11_foldl_positions:
  "positions_logged (foldl (q11_body ok) st xs) = positions_logged st @ map current_position xs"
  by (induction xs arbitrary: st) (simp_all add: q11_body_positions)

lemma errors_update_links:
  "errors_logged (update_links ok p1 p2 p3 st) =
     errors_logged st + (if ok 1 \<and> ok 2 \<and> ok 3 then 0 else 1)"
  by (simp add: update_links_def Let_def errors_logged_def)

lemma errors_decide:
  "errors_logged (q11_decide p q1 q2 q3 st) = errors_logged st"
  by (simp add: q11_decide_def Let_def errors_logged_def)

lemma errors_update_route:
  "errors_logged (q11_update_route q1 q2 q3 st) = errors_logged st"
  by (simp add: q11_update_route_def Let_def errors_logged_def)

lemma errors_position_msg:
  "errors_logged (st\<lparr>q11_log := q11_log st @ [Position_msg p]\<rparr>) = errors_logged st"
  by (simp add: errors_logged_def)

lemma errors_link_qualities:
  "errors_logged (st\<lparr>q11_log := q11_log st @ [Link_qualities q1 q2 q3]\<rparr>) = errors_logged st"
  by (simp add: errors_logged_def)

lemma q11_body_errors:
  "errors_logged (q11_body ok st s) =
     errors_logged st + (if ok s 1 \<and> ok s 2 \<and> ok s 3 then 0 else 1)"
  by (simp only: q11_body_def Let_def errors_link_qualities errors_update_route
      errors_decide errors_update_links errors_position_msg)

lemma q11_foldl_errors:
  "errors_logged (foldl (q11_body ok) st xs) =
     errors_logged st + length (filter (\<lambda>s. \<not> (ok s 1 \<and> ok s 2 \<and> ok s 3)) xs)"
  by (induction xs arbitrary: st) (simp_all add: q11_body_errors)

lemma handovers_update_links:
  "handover_positions (update_links ok p1 p2 p3 st) = handover_positions st"
  by (simp add: update_links_def Let_def)

lemma handovers_update_route:
  "handover_positions (q11_update_route q1 q2 q3 st) = handover_positions st"
  by (simp add: q11_update_route_def Let_def)

lemma handovers_decide:
  "handover_positions (q11_decide p q1 q2 q3 st) =
     (if select_best_ap (q11_current_ap st) q1 q2 q3 \<noteq> q11_current_ap st
      then handover_positions st
           @ [(p, q11_current_ap st, select_best_ap (q11_current_ap st) q1 q2 q3)]
      else handover_positions st)"
  by (simp add: q11_decide_def Let_def)

lemma q11_body_handovers:
  "handover_positions (q11_body ok st s) =
     (if best_at (q11_current_ap st) (current_position s) \<noteq> q11_current_ap st
      then handover_positions st
           @ [(current_position s, q11_current_ap st,
               best_at (q11_current_ap st) (current_position s))]
      else handover_positions st)"
  by (simp add: q11_body_def Let_def handovers_update_route handovers_decide
      handovers_update_links update_links_current_ap best_at_def quality_at_def)

lemma q11_handovers:
  "k \<le> 30 \<Longrightarrow>
   handover_positions (q11_after ok k) =
     (if k < 11 then []
      else if k < 22 then [(current_position 11, 1, 2)]
      else [(current_position 11, 1, 2), (current_position 22, 2, 3)])"
proof (induction k)
  case 0
  show ?case by (simp add: q11_after_def q11_init_def)
next
  case (Suc k)
  then have ih: "handover_positions (q11_after ok k) =
     (if k < 11 then []
      else if k < 22 then [(current_position 11, 1, 2)]
      else [(current_position 11, 1, 2), (current_position 22, 2, 3)])"
    and k: "k \<le> 30"
    by simp_all
  note cur = q11_trace [OF k, of ok]
  note step = q11_body_handovers [of ok "q11_after ok k" "Suc k"]
  consider "Suc k < 11" | "Suc k = 11" | "11 < Suc k \<and> Suc k < 22" | "Suc k = 22"
    | "22 < Suc k \<and> Suc k \<le> 30"
    using Suc.prems by linarith
  then have "handover_positions (q11_body ok (q11_after ok k) (Suc k)) =
     (if Suc k < 11 then []
      else if Suc k < 22 then [(current_position 11, 1, 2)]
      else [(current_position 11, 1, 2), (current_position 22, 2, 3)])"
  proof cases
    case 1
    with cur ih step q11_best_low [of "Suc k"] show ?thesis by simp
  next
    case 2
    with cur ih step q11_best_11 show ?thesis by simp
  next
    case 3
    with cur ih step q11_best_mid [of "Suc k"] show ?thesis by simp
  next
    case 4
    with cur ih step q11_best_22 show ?thesis by simp
  next
    case 5
    with cur ih step q11_best_high [of "Suc k"] show ?thesis by simp
  qed
  then show ?case by (simp only: q11_after_Suc)
qed

lemma q10_run_ends: "\<exists>n. q10_ends_at env 1 (q10_init env) (q10_run env) n"
  unfolding q10_run_def
  by (rule q10_interval) (simp_all add: q10_init_def)

lemma steps_entered_init: "steps_entered (q10_init env) = []"
  by (simp add: steps_entered_def q10_init_def List.map_filter_def)

lemma q10_body_raises:
  "sink_raises env s \<Longrightarrow>
   q10_body env s st = (st\<lparr>info_log := info_log st @ [Error_in_step s]\<rparr>, False)"
  by (simp add: q10_body_def Let_def)

lemma q10_body_netem:
  "\<not> sink_raises env s \<Longrightarrow>
   tc_netem (fst (q10_body env s st)) = tc_netem st @ [(5 + s * 5, s)]"
  by (simp add: q10_body_def Let_def q10_decide_def)

section \<open>Evaluating the decision twice\<close>

text \<open>
  Away from the path of the run the rule of q11 can move twice at one position: at
  position 100 it takes AP1 to AP2 and AP2 to AP3. No state of the run has AP1 active
  there.
\<close>

lemma q11_rule_off_path: "best_at 1 100 = 2 \<and> best_at 2 100 = 3"
  by (simp add: q11_defs)

text \<open>
  C3. Evaluating the decision a second time, with the same step, position and scores,
  changes nothing: the active candidate stays and no second handover is recorded. For
  q10 this holds in every state and for all scores. For q11 it holds in every state the
  run reaches, whatever link updates fail: at step \<open>n + 1\<close>, in any state whose active
  candidate is the one reached after \<open>n\<close> steps (the state in which the loop decides is
  one), deciding twice equals deciding once, and deciding again in the state reached
  after step \<open>n + 1\<close> leaves that state as it is.
\<close>

theorem decision_idempotent:
  "q10_decide t s a b (q10_decide t s a b st10) = q10_decide t s a b st10
   \<and> (n < total_steps \<and> q11_current_ap st = q11_current_ap (q11_after ok n) \<longrightarrow>
        q11_decide (current_position (Suc n))
          (quality_at 20 (current_position (Suc n))) (quality_at 70 (current_position (Suc n)))
          (quality_at 120 (current_position (Suc n)))
          (q11_decide (current_position (Suc n))
            (quality_at 20 (current_position (Suc n))) (quality_at 70 (current_position (Suc n)))
            (quality_at 120 (current_position (Suc n))) st)
        = q11_decide (current_position (Suc n))
            (quality_at 20 (current_position (Suc n))) (quality_at 70 (current_position (Suc n)))
            (quality_at 120 (current_position (Suc n))) st)
   \<and> (n < total_steps \<longrightarrow>
        q11_decide (current_position (Suc n))
          (quality_at 20 (current_position (Suc n))) (quality_at 70 (current_position (Suc n)))
          (quality_at 120 (current_position (Suc n))) (q11_after ok (Suc n))
        = q11_after ok (Suc n))"
proof -
  have a: "q10_decide t s a b (q10_decide t s a b st10) = q10_decide t s a b st10"
    by (rule q10_decide_idem)
  have fixed: "best_at (q11_current_ap (q11_after ok (Suc n))) (current_position (Suc n))
        = q11_current_ap (q11_after ok (Suc n))" if "n < total_steps"
    using that by (intro q11_settled) (simp_all add: total_steps_def)
  have b: "q11_decide (current_position (Suc n))
          (quality_at 20 (current_position (Suc n))) (quality_at 70 (current_position (Suc n)))
          (quality_at 120 (current_position (Suc n)))
          (q11_decide (current_position (Suc n))
            (quality_at 20 (current_position (Suc n))) (quality_at 70 (current_position (Suc n)))
            (quality_at 120 (current_position (Suc n))) st)
        = q11_decide (current_position (Suc n))
            (quality_at 20 (current_position (Suc n))) (quality_at 70 (current_position (Suc n)))
            (quality_at 120 (current_position (Suc n))) st"
    if "n < total_steps" and "q11_current_ap st = q11_current_ap (q11_after ok n)"
    using fixed [OF that(1)] that(2)
    by (intro q11_redecide) (simp only: q11_after_current_ap_Suc best_at_def)
  have c: "q11_decide (current_position (Suc n))
          (quality_at 20 (current_position (Suc n))) (quality_at 70 (current_position (Suc n)))
          (quality_at 120 (current_position (Suc n))) (q11_after ok (Suc n))
        = q11_after ok (Suc n)" if "n < total_steps"
    using fixed [OF that] by (intro q11_decide_fixed) (simp only: best_at_def)
  from a b c show ?thesis by blast
qed

theorem decision_idempotent_witness:
  "(10::nat) < total_steps
   \<and> q11_current_ap q11_init = q11_current_ap (q11_after flaky_links 10)
   \<and> q11_decide (current_position 11)
        (quality_at 20 (current_position 11)) (quality_at 70 (current_position 11))
        (quality_at 120 (current_position 11))
        (q11_decide (current_position 11)
          (quality_at 20 (current_position 11)) (quality_at 70 (current_position 11))
          (quality_at 120 (current_position 11)) q11_init)
      = q11_decide (current_position 11)
          (quality_at 20 (current_position 11)) (quality_at 70 (current_position 11))
          (quality_at 120 (current_position 11)) q11_init
   \<and> handover_positions (q11_decide (current_position 11)
          (quality_at 20 (current_position 11)) (quality_at 70 (current_position 11))
          (quality_at 120 (current_position 11)) q11_init)
      = [(current_position 11, 1, 2)]"
proof -
  have cur: "q11_current_ap q11_init = q11_current_ap (q11_after flaky_links 10)"
    by (simp add: q11_trace q11_init_def)
  have ten: "(10::nat) < total_steps"
    by (simp add: total_steps_def)
  have hp: "handover_positions (q11_decide (current_position 11)
          (quality_at 20 (current_position 11)) (quality_at 70 (current_position 11))
          (quality_at 120 (current_position 11)) q11_init)
      = [(current_position 11, 1, 2)]"
    using q11_best_11 by (simp add: handovers_decide best_at_def q11_init_def)
  from cur ten hp
    decision_idempotent [of 0 1 50 80 "q10_init example_env" 10 q11_init flaky_links]
  show ?thesis by simp
qed

section \<open>A failing link update\<close>

text \<open>
  C4. A link update that raises does not end the loop and does not disturb the step
  counter or the positions. In q10 the handler logs the error and leaves every other
  part of the state as it was, without \<open>break\<close>; the delay and the loss set at a step
  depend on the step alone; the steps entered are \<open>1, ..., n\<close> with no gap, the loop
  stops before step 20 only at a step that did not raise, and a raising step before
  step 20 is followed by the next step. In q11 the run logs the thirty positions
  \<open>step * (140 / 30)\<close> for \<open>step = 1, ..., 30\<close>, logs one error for every step at which an
  update fails, and records the same two handovers whatever fails.
\<close>

theorem sink_failure_continues:
  "(sink_raises env s \<longrightarrow>
      q10_body env s st = (st\<lparr>info_log := info_log st @ [Error_in_step s]\<rparr>, False))
   \<and> (\<not> sink_raises env s \<longrightarrow>
        tc_netem (fst (q10_body env s st)) = tc_netem st @ [(5 + s * 5, s)])
   \<and> (\<exists>n. 1 \<le> n \<and> n \<le> 20 \<and> steps_entered (q10_run env) = [1..<n + 1]
          \<and> (n < 20 \<longrightarrow> \<not> sink_raises env n))
   \<and> (sink_raises env s \<and> s \<in> set (steps_entered (q10_run env)) \<and> s < 20 \<longrightarrow>
        Suc s \<in> set (steps_entered (q10_run env)))
   \<and> positions_logged (q11_run ok) = map current_position [1..<31]
   \<and> errors_logged (q11_run ok)
       = length (filter (\<lambda>s. \<not> (ok s 1 \<and> ok s 2 \<and> ok s 3)) [1..<31])
   \<and> handover_positions (q11_run ok)
       = [(current_position 11, 1, 2), (current_position 22, 2, 3)]
   \<and> q11_current_ap (q11_run ok) = 3"
proof -
  obtain n where n: "q10_ends_at env 1 (q10_init env) (q10_run env) n"
    using q10_run_ends by blast
  then have steps: "steps_entered (q10_run env) = [1..<n + 1]"
    and n20: "n \<le> 20"
    and stop: "n < 20 \<longrightarrow> \<not> sink_raises env n \<and> n > handover_step (q10_run env) + 5"
    by (simp_all add: q10_ends_at_def steps_entered_init)
  from stop n20 have n1: "1 \<le> n" by (cases "n < 20") simp_all
  have a: "sink_raises env s \<longrightarrow>
      q10_body env s st = (st\<lparr>info_log := info_log st @ [Error_in_step s]\<rparr>, False)"
    by (simp add: q10_body_raises)
  have b: "\<not> sink_raises env s \<longrightarrow>
        tc_netem (fst (q10_body env s st)) = tc_netem st @ [(5 + s * 5, s)]"
    by (simp add: q10_body_netem)
  have c: "\<exists>n. 1 \<le> n \<and> n \<le> 20 \<and> steps_entered (q10_run env) = [1..<n + 1]
          \<and> (n < 20 \<longrightarrow> \<not> sink_raises env n)"
    using n1 n20 steps stop by blast
  have d: "sink_raises env s \<and> s \<in> set (steps_entered (q10_run env)) \<and> s < 20 \<longrightarrow>
        Suc s \<in> set (steps_entered (q10_run env))"
  proof (intro impI)
    assume h: "sink_raises env s \<and> s \<in> set (steps_entered (q10_run env)) \<and> s < 20"
    then have "s \<in> {1..<n + 1}" by (simp only: steps set_upt)
    then have sn: "1 \<le> s \<and> s \<le> n" by simp
    from h stop have "s \<noteq> n" by (cases "n < 20") auto
    with sn have "Suc s \<in> {1..<n + 1}" by simp
    then show "Suc s \<in> set (steps_entered (q10_run env))" by (simp only: steps set_upt)
  qed
  have e: "positions_logged (q11_run ok) = map current_position [1..<31]"
  proof -
    have "positions_logged q11_init = []"
      by (simp add: positions_logged_def q11_init_def List.map_filter_def)
    then show ?thesis
      by (simp add: q11_run_def q11_after_def total_steps_def q11_foldl_positions)
  qed
  have f: "errors_logged (q11_run ok)
       = length (filter (\<lambda>s. \<not> (ok s 1 \<and> ok s 2 \<and> ok s 3)) [1..<31])"
  proof -
    have "errors_logged q11_init = 0"
      by (simp add: errors_logged_def q11_init_def)
    then show ?thesis
      by (simp add: q11_run_def q11_after_def total_steps_def q11_foldl_errors)
  qed
  have g: "handover_positions (q11_run ok)
       = [(current_position 11, 1, 2), (current_position 22, 2, 3)]"
    by (simp add: q11_run_def total_steps_def q11_handovers)
  have h: "q11_current_ap (q11_run ok) = 3"
    by (simp add: q11_run_def total_steps_def q11_trace)
  from a b c d e f g h show ?thesis by blast
qed

theorem sink_failure_continues_witness:
  "sink_raises failing_env 7
   \<and> 7 \<in> set (steps_entered (q10_run failing_env))
   \<and> Suc 7 \<in> set (steps_entered (q10_run failing_env))
   \<and> steps_entered (q10_run failing_env) = [1, 2, 3, 4, 5, 6, 7, 8, 9, 10, 11, 12, 13, 14]
   \<and> errors_logged (q11_run flaky_links) = 1
   \<and> positions_logged (q11_run flaky_links) = map current_position [1..<31]
   \<and> handover_positions (q11_run flaky_links)
       = [(current_position 11, 1, 2), (current_position 22, 2, 3)]"
proof -
  have r: "sink_raises failing_env 7"
    by (simp add: failing_env_def)
  have m: "7 \<in> set (steps_entered (q10_run failing_env))"
    by (simp add: failing_steps)
  from r m flaky_count
    sink_failure_continues [of failing_env 7 "q10_init failing_env" flaky_links]
  show ?thesis by (simp add: failing_steps)
qed

section \<open>The settle window of q10\<close>

text \<open>
  C8, as stated, fails: the test is \<open>step > handover_step + 5\<close> and stands at the end of
  the body. In the sample environment the handover is at step 7 and the loop runs
  step 13 = 7 + 6 in full (its link update is the last one applied) before it breaks.
\<close>

theorem settle_window_is_six_steps:
  "handover_occurred (q10_run example_env)
   \<and> handover_step (q10_run example_env) = 7
   \<and> steps_entered (q10_run example_env) = [1, 2, 3, 4, 5, 6, 7, 8, 9, 10, 11, 12, 13]
   \<and> 13 \<in> set (steps_entered (q10_run example_env))
   \<and> (13::nat) > handover_step (q10_run example_env) + 5
   \<and> last (tc_netem (q10_run example_env)) = (70, 13)"
  by (simp add: example_run example_steps example_last_update)

text \<open>
  C8, amended. When a handover has occurred, at step \<open>h\<close>, the loop of q10 enters the
  steps \<open>1, ..., n\<close>, where \<open>n\<close> is the first step after \<open>h + 5\<close> whose link update does not
  raise, or 20 if there is none: the loop stops before step 20 only at a step
  \<open>n > h + 5\<close> that did not raise, and every earlier step raised or was at most \<open>h + 5\<close>.
  When no link update raises, \<open>n = min(h + 6, 20)\<close>: step \<open>h + 6\<close> is the last one run.
\<close>

theorem settle_window:
  assumes "handover_occurred (q10_run env)"
  shows "\<exists>n. 1 \<le> n \<and> n \<le> 20 \<and> steps_entered (q10_run env) = [1..<n + 1]
     \<and> 1 \<le> handover_step (q10_run env) \<and> handover_step (q10_run env) \<le> 20
     \<and> (n < 20 \<longrightarrow> \<not> sink_raises env n \<and> n > handover_step (q10_run env) + 5)
     \<and> (\<forall>s. 1 \<le> s \<and> s < n \<longrightarrow> sink_raises env s \<or> s \<le> handover_step (q10_run env) + 5)
     \<and> ((\<forall>s. \<not> sink_raises env s) \<longrightarrow> n = min (handover_step (q10_run env) + 6) 20)"
proof -
  let ?h = "handover_step (q10_run env)"
  obtain n where n: "q10_ends_at env 1 (q10_init env) (q10_run env) n"
    using q10_run_ends by blast
  with assms have steps: "steps_entered (q10_run env) = [1..<n + 1]"
    and n20: "n \<le> 20"
    and stop: "n < 20 \<longrightarrow> \<not> sink_raises env n \<and> n > ?h + 5"
    and before: "\<forall>s. 1 \<le> s \<and> s < n \<longrightarrow> sink_raises env s \<or> s \<le> ?h + 5"
    by (simp_all add: q10_ends_at_def steps_entered_init)
  from stop n20 have n1: "1 \<le> n" by (cases "n < 20") simp_all
  have "\<not> handover_occurred (q10_init env)" by (simp add: q10_init_def)
  then have "?h \<in> set [1..<21]"
    using assms unfolding q10_run_def by (rule q10_loop_new)
  then have h: "1 \<le> ?h \<and> ?h \<le> 20" by simp
  have exact: "n = min (?h + 6) 20" if free: "\<forall>s. \<not> sink_raises env s"
  proof (cases "n < 20")
    case True
    with stop have gt: "n > ?h + 5" by simp
    then have "1 \<le> n - 1 \<and> n - 1 < n" by simp
    with before free have "n - 1 \<le> ?h + 5" by blast
    with gt True show ?thesis by simp
  next
    case False
    with n20 have n: "n = 20" by simp
    with before free have "19 \<le> ?h + 5" by simp
    with n show ?thesis by simp
  qed
  from n1 n20 steps h stop before exact show ?thesis by blast
qed

theorem settle_window_witness:
  "handover_occurred (q10_run example_env)
   \<and> handover_step (q10_run example_env) = 7
   \<and> length (steps_entered (q10_run example_env))
       = min (handover_step (q10_run example_env) + 6) 20"
proof -
  have occ: "handover_occurred (q10_run example_env)"
    by (simp add: example_run)
  have free: "\<forall>s. \<not> sink_raises example_env s"
    by (simp add: example_env_def)
  from settle_window [OF occ] free example_run show ?thesis by auto
qed

section \<open>Positions of the loops and clamping\<close>



















text \<open>
  The linear formulas do not clamp their argument either, but no run evaluates them
  outside [0,1].
\<close>

lemma linear_formulas_outside_unit_interval:
  "delay (q6_ap1_new 2) = 39 \<and> delay (q6_ap1_new (clamp01 2)) = 20
   \<and> loss (q6_ap1_new 2) = 99 \<and> loss (q6_ap1_new (clamp01 2)) = 50"
  by (simp add: q6_ap1_new_def clamp01_def)






end
